theory Spec2Isabelle
  imports Complex_Main
begin

section \<open>Strings, buffers and JavaScript regular expressions\<close>

text \<open>
  A Node \<open>Buffer\<close> is a list of bytes; HOL's \<open>char\<close> is a byte, so a buffer is a
  \<open>string\<close> and \<open>Buffer.from('macro', 'utf8')\<close> is \<open>''macro''\<close>. A JavaScript string
  is a list of UTF-16 code units, modelled as \<open>nat list\<close>; \<open>js\<close> turns an ASCII literal
  into its code units. Threat tags, media types and file names are ASCII texts of the
  program and stay \<open>string\<close>s.
\<close>

type_synonym buffer = string

type_synonym jsstring = "nat list"

definition js :: "string \<Rightarrow> jsstring" where
  "js s = map of_char s"

text \<open>\<open>startsWith\<close> and \<open>includes\<close> of strings and buffers: exact comparison of elements.\<close>

fun startsWith :: "'a list \<Rightarrow> 'a list \<Rightarrow> bool" where
  "startsWith xs [] = True"
| "startsWith [] (y # ys) = False"
| "startsWith (x # xs) (y # ys) = (x = y \<and> startsWith xs ys)"

fun js_includes :: "'a list \<Rightarrow> 'a list \<Rightarrow> bool" where
  "js_includes [] ys = (ys = [])"
| "js_includes (x # xs) ys = (startsWith (x # xs) ys \<or> js_includes xs ys)"

text \<open>\<open>buffer.toString('hex')\<close>: two lower-case hexadecimal digits per byte.\<close>

definition hexDigit :: "nat \<Rightarrow> char" where
  "hexDigit n = ''0123456789abcdef'' ! (n mod 16)"

definition hexByte :: "char \<Rightarrow> string" where
  "hexByte b = [hexDigit (of_char b div 16), hexDigit (of_char b mod 16)]"

definition toHex :: "buffer \<Rightarrow> string" where
  "toHex b = concat (map hexByte b)"

text \<open>
  The regular expressions of the program, as syntax trees. \<open>rx_run\<close> is the backtracking
  matcher of ECMAScript: it returns every way the expression can match at the head of the
  input, most preferred first (the left alternative before the right one, one more
  iteration of a greedy quantifier before one fewer), each as the input that remains and
  the capture groups set so far. An iteration of \<open>*\<close> or \<open>?\<close> that consumes nothing is
  dropped, as the standard's empty check does. With the \<open>i\<close> flag a literal character is
  compared through \<open>canonicalize\<close>. Every literal of the program is ASCII or a currency
  sign, and no other code unit has one of them as its upper case, so \<open>canonicalize\<close> only
  needs to map \<open>a..z\<close> to \<open>A..Z\<close>. A character class is given as the predicate it denotes
  under the flags of its expression.
\<close>

datatype rx =
    Lit jsstring
  | Cls "nat \<Rightarrow> bool"
  | Seq rx rx
  | Alt rx rx
  | Star rx
  | Opt rx
  | Grp nat rx
  | Eos

type_synonym caps = "(nat \<times> jsstring) list"

definition canonicalize :: "nat \<Rightarrow> nat" where
  "canonicalize c = (if 97 \<le> c \<and> c \<le> 122 then c - 32 else c)"

fun lit_match :: "bool \<Rightarrow> jsstring \<Rightarrow> jsstring \<Rightarrow> jsstring option" where
  "lit_match ic [] xs = Some xs"
| "lit_match ic (l # ls) [] = None"
| "lit_match ic (l # ls) (x # xs) =
     (if (if ic then canonicalize l = canonicalize x else l = x)
      then lit_match ic ls xs else None)"

fun rx_run :: "bool \<Rightarrow> rx \<Rightarrow> jsstring \<Rightarrow> caps \<Rightarrow> (jsstring \<times> caps) list" where
  "rx_run ic (Lit l) xs c = (case lit_match ic l xs of None \<Rightarrow> [] | Some r \<Rightarrow> [(r, c)])"
| "rx_run ic (Cls p) xs c = (case xs of [] \<Rightarrow> [] | x # r \<Rightarrow> if p x then [(r, c)] else [])"
| "rx_run ic (Seq a b) xs c = concat (map (\<lambda>(r, c'). rx_run ic b r c') (rx_run ic a xs c))"
| "rx_run ic (Alt a b) xs c = rx_run ic a xs c @ rx_run ic b xs c"
| "rx_run ic (Opt a) xs c =
     filter (\<lambda>(r, c'). length r < length xs) (rx_run ic a xs c) @ [(xs, c)]"
| "rx_run ic (Star a) xs c =
     concat (map (\<lambda>(r, c'). rx_run ic (Star a) r c')
                 (filter (\<lambda>(r, c'). length r < length xs) (rx_run ic a xs c))) @ [(xs, c)]"
| "rx_run ic (Grp n a) xs c =
     map (\<lambda>(r, c'). (r, (n, take (length xs - length r) xs) # c')) (rx_run ic a xs c)"
| "rx_run ic Eos xs c = (if xs = [] then [(xs, c)] else [])"

text \<open>
  The leftmost match in \<open>xs\<close>, which is the part of the subject from index \<open>i\<close> on: the
  index where it starts, the index where it ends, and the captures. None of the
  program's expressions looks behind the position it starts at.
\<close>

fun rx_find :: "bool \<Rightarrow> rx \<Rightarrow> nat \<Rightarrow> jsstring \<Rightarrow> (nat \<times> nat \<times> caps) option" where
  "rx_find ic r i [] =
     (case rx_run ic r [] [] of [] \<Rightarrow> None | (rest, c) # _ \<Rightarrow> Some (i, i, c))"
| "rx_find ic r i (x # xs) =
     (case rx_run ic r (x # xs) [] of
        [] \<Rightarrow> rx_find ic r (Suc i) xs
      | (rest, c) # _ \<Rightarrow> Some (i, i + (length (x # xs) - length rest), c))"

text \<open>
  A \<open>RegExp\<close> object. A literal creates a fresh object with \<open>lastIndex = 0\<close>.
  \<open>RegExp.prototype.test\<close> starts at \<open>lastIndex\<close> when the \<open>g\<close> flag is set (at 0
  otherwise); with the flag, a match stores the index where it ended in \<open>lastIndex\<close> and a
  failure stores 0. \<open>regexp_test\<close> returns the answer and the object after the call.
\<close>

record regexp =
  source :: string
  pattern :: rx
  ignoreCase :: bool
  global :: bool
  lastIndex :: nat

definition regexp_literal :: "string \<Rightarrow> rx \<Rightarrow> bool \<Rightarrow> bool \<Rightarrow> regexp" where
  "regexp_literal src p g i =
     \<lparr>source = src, pattern = p, ignoreCase = i, global = g, lastIndex = 0\<rparr>"

definition regexp_test :: "regexp \<Rightarrow> jsstring \<Rightarrow> bool \<times> regexp" where
  "regexp_test re s =
     (let start = (if global re then lastIndex re else 0) in
      if start > length s then (False, if global re then re\<lparr>lastIndex := 0\<rparr> else re)
      else (case rx_find (ignoreCase re) (pattern re) start (drop start s) of
              None \<Rightarrow> (False, if global re then re\<lparr>lastIndex := 0\<rparr> else re)
            | Some (i, e, c) \<Rightarrow> (True, if global re then re\<lparr>lastIndex := e\<rparr> else re)))"

text \<open>Character classes of the program's expressions.\<close>

definition cls_digit :: "nat \<Rightarrow> bool" where
  \<comment> \<open>\<open>[0-9]\<close>\<close>
  "cls_digit c = (48 \<le> c \<and> c \<le> 57)"

definition cls_space :: "nat \<Rightarrow> bool" where
  \<comment> \<open>\<open>\s\<close>: the white space and line terminator code units of ECMAScript\<close>
  "cls_space c = (c \<in> {9, 10, 11, 12, 13, 32, 160, 5760, 8232, 8233, 8239, 8287, 12288, 65279}
                  \<or> (8192 \<le> c \<and> c \<le> 8202))"

definition cls_letter_i :: "nat \<Rightarrow> bool" where
  \<comment> \<open>\<open>[a-z]\<close> under the \<open>i\<close> flag: a letter of either case\<close>
  "cls_letter_i c = ((97 \<le> c \<and> c \<le> 122) \<or> (65 \<le> c \<and> c \<le> 90))"

definition cls_not_letter_i :: "nat \<Rightarrow> bool" where
  \<comment> \<open>\<open>[^a-z]\<close> under the \<open>i\<close> flag\<close>
  "cls_not_letter_i c = (\<not> cls_letter_i c)"

definition cls_sep :: "nat \<Rightarrow> bool" where
  \<comment> \<open>\<open>[.,]\<close>\<close>
  "cls_sep c = (c = 46 \<or> c = 44)"

definition bsl :: string where
  \<comment> \<open>the backslash, as it appears in \<open>pattern.source\<close>\<close>
  "bsl = [CHR 0x5C]"

section \<open>AntivirusService\<close>

record ScanResult =
  isClean :: bool
  threats :: "string list"
  scanTime :: int

text \<open>
  \<open>buffer.toString('utf8').toLowerCase()\<close> is code of the runtime: UTF-8 decoding with
  replacement characters, then Unicode lower-casing. It enters the model as the parameter
  \<open>dec\<close>, which returns \<open>None\<close> where the runtime throws (a buffer longer than the
  longest string it can build). \<open>ascii_lower\<close> is what the runtime computes on a buffer
  of bytes below 0x80, for use at concrete inputs.
\<close>

datatype scan_error = ERR_STRING_TOO_LONG

type_synonym decoder = "buffer \<Rightarrow> jsstring option"

definition ascii_lower :: decoder where
  "ascii_lower b =
     Some (map (\<lambda>ch. let c = of_char ch in if 65 \<le> c \<and> c \<le> 90 then c + 32 else c) b)"

definition checkFileSignatures :: "buffer \<Rightarrow> string list" where
  "checkFileSignatures buffer =
     (let header = toHex (take 16 buffer) in
      if js_includes header ''4d5a'' \<or> js_includes header ''7f454c46''
      then [''EXECUTABLE_EMBEDDED: Document contains executable code'']
      else [])"

definition isPotentialMacroDocument :: "string \<Rightarrow> buffer \<Rightarrow> bool" where
  "isPotentialMacroDocument mimeType buffer =
     (mimeType = ''application/pdf'' \<or> js_includes buffer ''macro''
      \<or> js_includes buffer ''script'')"

definition macroPatterns :: "regexp list" where
  "macroPatterns =
    [regexp_literal (bsl @ ''/javascript'') (Lit (js ''/javascript'')) True True,
     regexp_literal (bsl @ ''/js[^a-z]'') (Seq (Lit (js ''/js'')) (Cls cls_not_letter_i)) True True,
     regexp_literal ''activexobject'' (Lit (js ''activexobject'')) True True,
     regexp_literal (''shell'' @ bsl @ ''.application'') (Lit (js ''shell.application'')) True True,
     regexp_literal (''wscript'' @ bsl @ ''.shell'') (Lit (js ''wscript.shell'')) True True,
     regexp_literal (''eval'' @ bsl @ ''s*'' @ bsl @ ''('')
       (Seq (Lit (js ''eval'')) (Seq (Star (Cls cls_space)) (Lit (js ''('')))) True True,
     regexp_literal (''document'' @ bsl @ ''.write'') (Lit (js ''document.write'')) True True,
     regexp_literal ''fromcharcode'' (Lit (js ''fromcharcode'')) True True,
     regexp_literal ''vbscript'' (Lit (js ''vbscript'')) True True,
     regexp_literal (''macro[a-z]*'' @ bsl @ ''s*='')
       (Seq (Lit (js ''macro''))
         (Seq (Star (Cls cls_letter_i)) (Seq (Star (Cls cls_space)) (Lit (js ''=''))))) True True]"

definition macroTag :: "regexp \<Rightarrow> string" where
  "macroTag p = ''MACRO_DETECTED: Suspicious macro or script detected ('' @ source p @ '')''"

fun macro_loop :: "regexp list \<Rightarrow> jsstring \<Rightarrow> string list \<Rightarrow> string list" where
  "macro_loop [] content tags = tags"
| "macro_loop (p # ps) content tags =
     (if fst (regexp_test p content)
      then macro_loop ps content (tags @ [macroTag p])
      else macro_loop ps content tags)"

definition checkForMacros :: "decoder \<Rightarrow> buffer \<Rightarrow> scan_error + string list" where
  "checkForMacros dec buffer =
     (case dec buffer of
        None \<Rightarrow> Inl ERR_STRING_TOO_LONG
      | Some content \<Rightarrow> Inr (macro_loop macroPatterns content []))"

definition suspiciousPatterns :: "regexp list" where
  "suspiciousPatterns =
    [regexp_literal ''powershell'' (Lit (js ''powershell'')) True True,
     regexp_literal (''cmd'' @ bsl @ ''.exe'') (Lit (js ''cmd.exe'')) True True,
     regexp_literal ''rundll32'' (Lit (js ''rundll32'')) True True,
     regexp_literal ''regsvr32'' (Lit (js ''regsvr32'')) True True,
     regexp_literal ''certutil'' (Lit (js ''certutil'')) True True,
     regexp_literal ''bitsadmin'' (Lit (js ''bitsadmin'')) True True,
     regexp_literal ''mshta'' (Lit (js ''mshta'')) True True,
     regexp_literal ''cscript'' (Lit (js ''cscript'')) True True,
     regexp_literal ''wscript'' (Lit (js ''wscript'')) True True,
     regexp_literal (''net'' @ bsl @ ''.webclient'') (Lit (js ''net.webclient'')) True True,
     regexp_literal (''system'' @ bsl @ ''.diagnostics'' @ bsl @ ''.process'')
       (Lit (js ''system.diagnostics.process'')) True True,
     regexp_literal ''base64'' (Lit (js ''base64'')) True True,
     regexp_literal ''frombase64string'' (Lit (js ''frombase64string'')) True True]"

definition suspiciousTag :: "regexp \<Rightarrow> string" where
  "suspiciousTag p =
     ''SUSPICIOUS_PATTERN: Potentially malicious pattern detected ('' @ source p @ '')''"

text \<open>
  The \<open>for\<close> loop of \<open>checkSuspiciousPatterns\<close> calls \<open>test\<close> on each pattern object; the
  objects it leaves behind, with their \<open>lastIndex\<close>, are the ones the \<open>filter\<close> after the
  loop calls \<open>test\<close> on again.
\<close>

fun suspicious_loop ::
  "regexp list \<Rightarrow> jsstring \<Rightarrow> string list \<Rightarrow> regexp list \<times> string list" where
  "suspicious_loop [] content tags = ([], tags)"
| "suspicious_loop (p # ps) content tags =
     (let (hit, p') = regexp_test p content;
          (ps', tags') =
             suspicious_loop ps content (if hit then tags @ [suspiciousTag p] else tags)
      in (p' # ps', tags'))"

fun filter_test :: "regexp list \<Rightarrow> jsstring \<Rightarrow> regexp list" where
  "filter_test [] content = []"
| "filter_test (p # ps) content =
     (if fst (regexp_test p content) then p # filter_test ps content
      else filter_test ps content)"

definition suspicious_scan :: "jsstring \<Rightarrow> string list" where
  "suspicious_scan content =
     (let (patterns', tags) = suspicious_loop suspiciousPatterns content [];
          matches = filter_test patterns' content
      in if length matches \<ge> 3
         then tags @ [''HIGH_RISK: Multiple suspicious patterns detected'']
         else tags)"

definition checkSuspiciousPatterns :: "decoder \<Rightarrow> buffer \<Rightarrow> scan_error + string list" where
  "checkSuspiciousPatterns dec buffer =
     (case dec buffer of
        None \<Rightarrow> Inl ERR_STRING_TOO_LONG
      | Some content \<Rightarrow> Inr (suspicious_scan content))"

text \<open>
  Shannon entropy of the byte histogram. The source computes it in IEEE doubles; the
  model uses the reals. It is only evaluated on an image of more than 10 MiB.
\<close>

definition calculateEntropy :: "buffer \<Rightarrow> real" where
  "calculateEntropy buffer =
     - (\<Sum>i \<leftarrow> [0..<256].
          (let f = count_list (map of_char buffer) i in
           if f > 0 then (real f / real (length buffer)) * log 2 (real f / real (length buffer))
           else 0))"

definition checkFileSizeAnomalies :: "buffer \<Rightarrow> string \<Rightarrow> string list" where
  "checkFileSizeAnomalies buffer mimeType =
     (let size = length buffer;
          t1 = (if mimeType = ''image/png'' \<and> size > 50 * 1024 * 1024
                then [''SIZE_ANOMALY: Image file unusually large for type''] else []);
          t2 = (if mimeType = ''image/jpeg'' \<and> size > 100 * 1024 * 1024
                then [''SIZE_ANOMALY: Image file unusually large for type''] else []);
          t3 = (if startsWith mimeType ''image/'' \<and> size > 10 * 1024 * 1024
                then (if calculateEntropy buffer > 7.5
                      then [''STEGANOGRAPHY_RISK: Image has high entropy, may contain hidden data'']
                      else [])
                else [])
      in t1 @ t2 @ t3)"

text \<open>
  The body of the \<open>try\<close> block of \<open>scanFile\<close>: the four checks in order, each appending
  its tags; an exception in one of them leaves the block.
\<close>

definition scan_checks :: "decoder \<Rightarrow> buffer \<Rightarrow> string \<Rightarrow> scan_error + string list" where
  "scan_checks dec buffer mimeType =
     (let tags = checkFileSignatures buffer in
      case (if isPotentialMacroDocument mimeType buffer
            then (case checkForMacros dec buffer of
                    Inl e \<Rightarrow> Inl e
                  | Inr macroThreats \<Rightarrow> Inr (tags @ macroThreats))
            else Inr tags) of
        Inl e \<Rightarrow> Inl e
      | Inr tags \<Rightarrow>
          (case checkSuspiciousPatterns dec buffer of
             Inl e \<Rightarrow> Inl e
           | Inr patternThreats \<Rightarrow>
               Inr ((tags @ patternThreats) @ checkFileSizeAnomalies buffer mimeType)))"

text \<open>
  \<open>scanFile\<close>, with the two readings of the clock (at entry and at return) as arguments.
  The \<open>catch\<close> block turns any exception into the \<open>SCAN_ERROR\<close> result.
\<close>

definition scanFile :: "decoder \<Rightarrow> int \<Rightarrow> int \<Rightarrow> buffer \<Rightarrow> string \<Rightarrow> string \<Rightarrow> ScanResult" where
  "scanFile dec startTime endTime buffer filename mimeType =
     (case scan_checks dec buffer mimeType of
        Inr tags \<Rightarrow>
          \<lparr>isClean = (length tags = 0), threats = tags, scanTime = endTime - startTime\<rparr>
      | Inl e \<Rightarrow>
          \<lparr>isClean = False, threats = [''SCAN_ERROR: Unable to complete security scan''],
           scanTime = endTime - startTime\<rparr>)"

definition getSecurityRecommendation :: "ScanResult \<Rightarrow> string" where
  "getSecurityRecommendation scanResult =
     (if isClean scanResult then ''File passed security scan - safe to process''
      else let threatCount = length (threats scanResult) in
        if threatCount = 1 \<and> js_includes (threats scanResult ! 0) ''SUSPICIOUS_PATTERN''
        then ''File contains potentially suspicious content - review before processing''
        else if threatCount \<ge> 3
                \<or> list_ex (\<lambda>t. js_includes t ''HIGH_RISK'') (threats scanResult)
        then ''File contains multiple security threats - DO NOT PROCESS''
        else ''File contains security concerns - proceed with caution'')"

section \<open>The upload route: field parsing\<close>

text \<open>\<open>String.prototype.trim\<close> strips the code units that \<open>\s\<close> matches from both ends.\<close>

definition js_trim :: "jsstring \<Rightarrow> jsstring" where
  "js_trim s = rev (dropWhile cls_space (rev (dropWhile cls_space s)))"

text \<open>\<open>replace(/[ \t]+/g, ' ')\<close>: every run of blanks and tabs becomes one blank. The
  flag says whether the previous code unit belonged to a run.\<close>

fun collapse_blanks :: "bool \<Rightarrow> jsstring \<Rightarrow> jsstring" where
  "collapse_blanks inRun [] = []"
| "collapse_blanks inRun (x # xs) =
     (if x = 32 \<or> x = 9
      then (if inRun then collapse_blanks True xs else 32 # collapse_blanks True xs)
      else x # collapse_blanks False xs)"

text \<open>
  \<open>normalizeAmount\<close>. The two tests are \<open>/,[0-9]{2}$/\<close> and \<open>/\.[0-9]{2}$/\<close>, without
  flags. The callback of the second \<open>replace\<close> compares the offset of each comma with
  \<open>s.lastIndexOf(',')\<close>, where \<open>s\<close> is still the string the \<open>replace\<close> runs on.
\<close>

definition rx_comma2 :: rx where
  "rx_comma2 = Seq (Lit (js '','')) (Seq (Cls cls_digit) (Seq (Cls cls_digit) Eos))"

definition rx_dot2 :: rx where
  "rx_dot2 = Seq (Lit (js ''.'')) (Seq (Cls cls_digit) (Seq (Cls cls_digit) Eos))"

fun lastIndexOf :: "jsstring \<Rightarrow> nat \<Rightarrow> int" where
  "lastIndexOf [] c = -1"
| "lastIndexOf (x # xs) c =
     (let r = lastIndexOf xs c in if r \<ge> 0 then r + 1 else if x = c then 0 else -1)"

fun replace_commas :: "int \<Rightarrow> int \<Rightarrow> jsstring \<Rightarrow> jsstring" where
  "replace_commas lastComma off [] = []"
| "replace_commas lastComma off (x # xs) =
     (if x = 44 then (if off = lastComma then [46] else []) @ replace_commas lastComma (off + 1) xs
      else x # replace_commas lastComma (off + 1) xs)"

definition normalizeAmount :: "jsstring \<Rightarrow> jsstring" where
  "normalizeAmount raw =
     (let s = js_trim raw in
      if fst (regexp_test (regexp_literal '',[0-9]{2}$'' rx_comma2 False False) s)
         \<and> \<not> fst (regexp_test (regexp_literal (bsl @ ''.[0-9]{2}$'') rx_dot2 False False) s)
      then (let s1 = filter (\<lambda>c. c \<noteq> 46) s in replace_commas (lastIndexOf s1 44) 0 s1)
      else filter (\<lambda>c. c \<noteq> 44) s)"

text \<open>
  The combined amount and currency expression of \<open>parseInvoiceData\<close>, built with the
  \<open>i\<close> flag. The currency signs are \<open>$\<close> (36), the euro sign (8364), the pound sign
  (163), the shekel sign (8362), and the shekel sign followed by a left-to-right mark
  (8206). \<open>[0-9]{1,3}\<close> is one digit and up to two more, the longer run first.
\<close>

definition rx_amount :: rx where
  "rx_amount =
     Seq (Seq (Cls cls_digit) (Opt (Seq (Cls cls_digit) (Opt (Cls cls_digit)))))
      (Seq (Star (Seq (Cls cls_sep) (Seq (Cls cls_digit) (Seq (Cls cls_digit) (Cls cls_digit)))))
           (Opt (Seq (Cls cls_sep) (Seq (Cls cls_digit) (Cls cls_digit)))))"

definition rx_symbols :: rx where
  "rx_symbols = Alt (Lit [36]) (Alt (Lit [8364]) (Alt (Lit [163]) (Alt (Lit [8362])
                  (Lit [8362, 8206]))))"

definition rx_codes :: rx where
  "rx_codes = Alt (Lit (js ''USD'')) (Alt (Lit (js ''EUR'')) (Alt (Lit (js ''GBP''))
                (Alt (Lit (js ''ILS'')) (Alt (Lit (js ''NIS'')) (Alt (Lit (js ''AUD''))
                (Lit (js ''CAD'')))))))"

definition currencyRegex :: rx where
  "currencyRegex =
     Alt (Seq (Grp 1 rx_symbols) (Seq (Star (Cls cls_space)) (Grp 2 rx_amount)))
         (Seq (Grp 3 rx_amount) (Seq (Star (Cls cls_space)) (Grp 4 rx_codes)))"

definition symbolToCode :: "jsstring \<Rightarrow> jsstring option" where
  "symbolToCode symbol =
     (if symbol = [36] then Some (js ''USD'')
      else if symbol = [8364] then Some (js ''EUR'')
      else if symbol = [163] then Some (js ''GBP'')
      else if symbol = [8362] \<or> symbol = [8362, 8206] then Some (js ''ILS'')
      else None)"

definition toUpperCase :: "jsstring \<Rightarrow> jsstring" where
  \<comment> \<open>on the ASCII letters a currency code is made of\<close>
  "toUpperCase s = map canonicalize s"

definition normalizeCurrencyCode :: "jsstring \<Rightarrow> jsstring" where
  "normalizeCurrencyCode code =
     (let upper = toUpperCase code in if upper = js ''NIS'' then js ''ILS'' else upper)"

text \<open>
  The amount and currency block of \<open>parseInvoiceData\<close>: the text is cleaned, the
  expression is matched once from the start of the text, and the groups of the match
  decide the two fields. A group counts when it is set and not empty. The date and the
  vendor blocks that follow it in the source do not read or write these two fields.
\<close>

record amount_currency =
  amount :: "jsstring option"
  currency :: "jsstring option"

definition truthy :: "jsstring option \<Rightarrow> bool" where
  "truthy v = (case v of None \<Rightarrow> False | Some s \<Rightarrow> s \<noteq> [])"

definition clean_text :: "jsstring \<Rightarrow> jsstring" where
  "clean_text rawText = js_trim (collapse_blanks False (filter (\<lambda>c. c \<noteq> 13) rawText))"

definition parseAmountCurrency :: "jsstring \<Rightarrow> amount_currency" where
  "parseAmountCurrency rawText =
     (case rx_find True currencyRegex 0 (clean_text rawText) of
        None \<Rightarrow> \<lparr>amount = None, currency = None\<rparr>
      | Some (i, e, m) \<Rightarrow>
          if truthy (map_of m 1) \<and> truthy (map_of m 2)
          then \<lparr>amount = map_option normalizeAmount (map_of m 2),
                currency = Option.bind (map_of m 1) symbolToCode\<rparr>
          else if truthy (map_of m 3) \<and> truthy (map_of m 4)
          then \<lparr>amount = map_option normalizeAmount (map_of m 3),
                currency = map_option normalizeCurrencyCode (map_of m 4)\<rparr>
          else \<lparr>amount = None, currency = None\<rparr>)"

section \<open>The upload route: POST /api/upload/invoice\<close>

record uploaded_file =
  file_buffer :: buffer
  originalname :: string
  mimetype :: string
  file_size :: nat

datatype http_error = HttpError string nat

text \<open>
  \<open>validateFileType\<close>. Decoding as \<open>'ascii'\<close> clears the highest bit of each byte; an
  index past the end of the buffer reads \<open>undefined\<close>, which equals no number.
\<close>

definition byteAt :: "buffer \<Rightarrow> nat \<Rightarrow> nat option" where
  "byteAt b i = (if i < length b then Some (of_char (b ! i)) else None)"

definition validateFileType :: "buffer \<Rightarrow> string \<Rightarrow> bool" where
  "validateFileType buf mimeType =
     (let magic = take 10 buf in
      if mimeType = ''application/pdf''
      then map (\<lambda>b. of_char b mod 128) (take 4 magic) = js ''%PDF''
      else if mimeType = ''image/jpeg'' \<or> mimeType = ''image/jpg''
      then byteAt magic 0 = Some 0xff \<and> byteAt magic 1 = Some 0xd8 \<and> byteAt magic 2 = Some 0xff
      else if mimeType = ''image/png''
      then toHex (take 8 magic) = ''89504e470d0a1a0a''
      else False)"

text \<open>
  \<open>extractText\<close>. The PDF text extractor and the OCR engine are libraries; each is a
  parameter that returns \<open>Inl\<close> with the message of the exception it throws, or the
  \<open>text\<close> (and for OCR the \<open>confidence\<close>) of its result, either of which may be missing.
\<close>

record extraction =
  ex_text :: jsstring
  ex_engine :: string
  ex_confidence :: "rat option"

record ocr_libs =
  pdfParse :: "buffer \<Rightarrow> string + jsstring option"
  recognize :: "buffer \<Rightarrow> string \<Rightarrow> string + (jsstring option \<times> rat option)"

definition extractText :: "ocr_libs \<Rightarrow> string \<Rightarrow> buffer \<Rightarrow> string \<Rightarrow> string + extraction" where
  "extractText libs tessLang buf mimeType =
     (if mimeType = ''application/pdf''
      then (case pdfParse libs buf of
              Inl e \<Rightarrow> Inl e
            | Inr t \<Rightarrow>
                (let txt = js_trim (case t of None \<Rightarrow> [] | Some x \<Rightarrow> x) in
                 if length txt < 20 then Inl ''PDF appears to be scanned (no extractable text).''
                 else Inr \<lparr>ex_text = txt, ex_engine = ''pdf-parse'', ex_confidence = None\<rparr>))
      else (case recognize libs buf tessLang of
              Inl e \<Rightarrow> Inl e
            | Inr (t, conf) \<Rightarrow>
                Inr \<lparr>ex_text = js_trim (case t of None \<Rightarrow> [] | Some x \<Rightarrow> x),
                     ex_engine = ''tesseract'',
                     ex_confidence = map_option (\<lambda>c. c / 100) conf\<rparr>))"

text \<open>
  The handler of the route. What it reads from its surroundings is gathered in
  \<open>upload_env\<close>: the decoder and the clock readings that \<open>scanFile\<close> takes, the two
  libraries, the parsed environment variables (\<open>MAX_FILE_SIZE\<close>, default 10485760;
  \<open>TEXT_PREVIEW_LIMIT\<close>, default 5000; \<open>TESS_LANG\<close>, default \<open>eng+heb\<close>) and
  \<open>parseInvoiceData\<close>. The handler returns the stages it has called, in order, and
  either the error it throws or the body of its response.
\<close>

datatype stage = ScanStage | ExtractStage | ParseStage

record 'f upload_env =
  env_dec :: decoder
  env_startTime :: int
  env_endTime :: int
  env_libs :: ocr_libs
  env_maxBytes :: nat
  env_previewLimit :: nat
  env_tessLang :: string
  env_parse :: "jsstring \<Rightarrow> 'f"

record 'f upload_response =
  resp_originalName :: string
  resp_size :: nat
  resp_type :: string
  resp_engine :: string
  resp_confidence :: "rat option"
  resp_text :: jsstring
  resp_extractedData :: 'f

fun join :: "string \<Rightarrow> string list \<Rightarrow> string" where
  "join sep [] = []"
| "join sep [x] = x"
| "join sep (x # y # ys) = x @ sep @ join sep (y # ys)"

definition uploadInvoice ::
  "'f upload_env \<Rightarrow> uploaded_file option \<Rightarrow> stage list \<times> (http_error + 'f upload_response)" where
  "uploadInvoice env req_file =
     (case req_file of
        None \<Rightarrow> ([], Inl (HttpError ''No file uploaded'' 400))
      | Some file \<Rightarrow>
          if file_size file > env_maxBytes env then ([], Inl (HttpError ''File too large'' 413))
          else if \<not> validateFileType (file_buffer file) (mimetype file)
          then ([], Inl (HttpError ''Invalid file format'' 400))
          else
            (let scanResult = scanFile (env_dec env) (env_startTime env) (env_endTime env)
                                (file_buffer file) (originalname file) (mimetype file)
             in if \<not> isClean scanResult
                then ([ScanStage],
                      Inl (HttpError (''Security scan failed: '' @ join '', '' (threats scanResult)
                                      @ ''. '' @ getSecurityRecommendation scanResult) 403))
                else
                  (case extractText (env_libs env) (env_tessLang env) (file_buffer file)
                          (mimetype file) of
                     Inl e \<Rightarrow>
                       ([ScanStage, ExtractStage], Inl (HttpError (''Extraction failed: '' @ e) 422))
                   | Inr out \<Rightarrow>
                       if ex_text out = [] \<or> js_trim (ex_text out) = []
                       then ([ScanStage, ExtractStage],
                             Inl (if mimetype file = ''application/pdf''
                                  then HttpError ''No selectable text in PDF (likely a scanned image). PDF OCR fallback is not enabled yet.'' 422
                                  else HttpError ''Could not extract text from file'' 422))
                       else
                         ([ScanStage, ExtractStage, ParseStage],
                          Inr \<lparr>resp_originalName = originalname file,
                               resp_size = file_size file,
                               resp_type = mimetype file,
                               resp_engine = ex_engine out,
                               resp_confidence = ex_confidence out,
                               resp_text =
                                 (if length (ex_text out) > env_previewLimit env
                                  then take (env_previewLimit env) (ex_text out) @ [8230]
                                  else ex_text out),
                               resp_extractedData = env_parse env (ex_text out)\<rparr>))))"

section \<open>The database: sensitivity, masking and retention\<close>

text \<open>
  SQL \<open>TEXT\<close> values are \<open>string\<close>s, \<open>NULL\<close> is \<open>None\<close>, and a condition is a
  \<open>bool option\<close> that an \<open>IF\<close> takes only when it is \<open>Some True\<close>. \<open>LOWER\<close> is modelled on
  the ASCII letters. A \<open>DECIMAL\<close> amount is a rational number. A timestamp is a point in
  time or the sum of a timestamp and an interval, which is kept as written.
\<close>

datatype pg_interval = Years nat | Days nat

datatype pg_timestamp = Timestamp int | PlusInterval pg_timestamp pg_interval

definition sql_eq :: "'a option \<Rightarrow> 'a option \<Rightarrow> bool option" where
  "sql_eq a b = (case (a, b) of (Some x, Some y) \<Rightarrow> Some (x = y) | _ \<Rightarrow> None)"

definition sql_ge :: "rat option \<Rightarrow> rat option \<Rightarrow> bool option" where
  "sql_ge a b = (case (a, b) of (Some x, Some y) \<Rightarrow> Some (x \<ge> y) | _ \<Rightarrow> None)"

definition sql_gt :: "rat option \<Rightarrow> rat option \<Rightarrow> bool option" where
  "sql_gt a b = (case (a, b) of (Some x, Some y) \<Rightarrow> Some (x > y) | _ \<Rightarrow> None)"

definition sql_or :: "bool option \<Rightarrow> bool option \<Rightarrow> bool option" where
  "sql_or a b = (if a = Some True \<or> b = Some True then Some True
                 else if a = Some False \<and> b = Some False then Some False else None)"

definition sql_and :: "bool option \<Rightarrow> bool option \<Rightarrow> bool option" where
  "sql_and a b = (if a = Some False \<or> b = Some False then Some False
                  else if a = Some True \<and> b = Some True then Some True else None)"

definition sql_true :: "bool option \<Rightarrow> bool" where
  "sql_true c = (c = Some True)"


definition lower_char :: "char \<Rightarrow> char" where
  "lower_char ch =
     (case map_of (zip ''ABCDEFGHIJKLMNOPQRSTUVWXYZ'' ''abcdefghijklmnopqrstuvwxyz'') ch of
        None \<Rightarrow> ch
      | Some l \<Rightarrow> l)"

definition LOWER :: "string \<Rightarrow> string" where
  "LOWER s = map lower_char s"

text \<open>
  \<open>mask_provider_name\<close> and \<open>get_provider_sensitivity\<close> of \<open>createTables\<close>. A \<open>NULL\<close> name
  makes every branch of \<open>mask_provider_name\<close> return \<open>NULL\<close>. The regular expression
  \<open>'.*(k1|k2|...).*'\<close> holds when one of the keywords occurs in the text.
\<close>

definition mask_provider_name :: "string option \<Rightarrow> string option \<Rightarrow> string option" where
  "mask_provider_name provider_name sensitivity_level =
     (case provider_name of
        None \<Rightarrow> None
      | Some name \<Rightarrow>
          if sensitivity_level = Some ''HIGH''
          then (if length name \<le> 3 then Some ''***''
                else Some (take 2 name @ replicate (length name - 3) (CHR ''*'')
                           @ drop (length name - 1) name))
          else if sensitivity_level = Some ''MEDIUM''
          then (if length name \<le> 5 then Some name
                else Some (take 3 name @ replicate (length name - 6) (CHR ''*'')
                           @ drop (length name - 3) name))
          else Some name)"

definition high_keywords :: "string list" where
  "high_keywords = [''security'', ''defense'', ''military'', ''government'', ''health'',
     ''medical'', ''bank'', ''finance'', ''crypto'', ''anthropic'', ''openai'', ''claude'']"

definition medium_keywords :: "string list" where
  "medium_keywords = [''aws'', ''amazon'', ''gcp'', ''google'', ''azure'', ''microsoft'',
     ''hosting'', ''server'', ''cloud'']"

definition get_provider_sensitivity :: "string option \<Rightarrow> string" where
  "get_provider_sensitivity provider_name =
     (case provider_name of
        None \<Rightarrow> ''LOW''
      | Some name \<Rightarrow>
          if list_ex (\<lambda>k. js_includes (LOWER name) k) high_keywords then ''HIGH''
          else if list_ex (\<lambda>k. js_includes (LOWER name) k) medium_keywords then ''MEDIUM''
          else ''LOW'')"




record expense =
  id :: nat
  provider_name :: "string option"
  provider_masked_name :: "string option"
  amount_of :: "rat option"
  date_of :: int
  category :: "string option"
  sensitivity_level :: "string option"
  file_id :: "nat option"
  file_path :: "string option"
  file_retention_policy :: "string option"
  created_by :: "nat option"
  created_at :: "pg_timestamp option"
  updated_at :: "pg_timestamp option"
  retention_until :: "pg_timestamp option"

text \<open>
  The trigger function \<open>set_expense_defaults\<close> of \<open>createTables\<close>, on the row \<open>NEW\<close>;
  \<open>now\<close> is \<open>CURRENT_TIMESTAMP\<close>.
\<close>

definition set_expense_defaults :: "pg_timestamp \<Rightarrow> expense \<Rightarrow> expense" where
  "set_expense_defaults now NEW0 =
     (let NEW1 = (if sql_true (sql_and (sql_eq (sensitivity_level NEW0) (Some ''LOW''))
                                       (Some (provider_name NEW0 \<noteq> None)))
                  then NEW0\<lparr>sensitivity_level :=
                              Some (get_provider_sensitivity (provider_name NEW0))\<rparr>
                  else NEW0);
          NEW2 = (if sql_true (sql_eq (sensitivity_level NEW1) (Some ''HIGH''))
                  then NEW1\<lparr>provider_masked_name :=
                              mask_provider_name (provider_name NEW1) (sensitivity_level NEW1)\<rparr>
                  else NEW1);
          NEW3 = (if file_id NEW2 \<noteq> None
                  then (if sql_true (sql_or (sql_eq (sensitivity_level NEW2) (Some ''HIGH''))
                                            (sql_gt (amount_of NEW2) (Some 1000)))
                        then NEW2\<lparr>file_retention_policy := Some ''KEEP''\<rparr>
                        else NEW2\<lparr>file_retention_policy := Some ''DELETE''\<rparr>)
                  else NEW2)
      in NEW3\<lparr>updated_at := Some now\<rparr>)"




section \<open>ExpenseModel\<close>

text \<open>
  The table \<open>expenses\<close> is the list of its rows. \<open>ILIKE\<close> compares without regard to
  case; in its pattern \<open>%\<close> stands for any text, \<open>_\<close> for any one character, and a
  backslash takes the next character literally. The patterns of \<open>findAll\<close> end in \<open>%\<close>,
  so none ends in a lone backslash.
\<close>

fun like_match :: "string \<Rightarrow> string \<Rightarrow> bool" where
  "like_match [] s = (s = [])"
| "like_match (p # ps) s =
     (if p = CHR ''%''
      then (like_match ps s \<or> (case s of [] \<Rightarrow> False | c # t \<Rightarrow> like_match (p # ps) t))
      else if p = CHR 0x5C
      then (case ps of
              [] \<Rightarrow> False
            | q # qs \<Rightarrow> (case s of [] \<Rightarrow> False
                                  | c # t \<Rightarrow> lower_char q = lower_char c \<and> like_match qs t))
      else (case s of
              [] \<Rightarrow> False
            | c # t \<Rightarrow> (p = CHR ''_'' \<or> lower_char p = lower_char c) \<and> like_match ps t))"

definition sql_ilike :: "string option \<Rightarrow> string \<Rightarrow> bool option" where
  "sql_ilike x pat = map_option (like_match pat) x"

text \<open>
  The \<open>filters\<close> argument of \<open>findAll\<close>. A filter applies when its field is truthy: a
  string that is not empty, a number that is not zero.
\<close>

record filters =
  startDate :: "int option"
  endDate :: "int option"
  provider :: "string option"
  f_category :: "string option"
  minAmount :: "rat option"
  maxAmount :: "rat option"
  showMasked :: bool

definition where_clause :: "nat \<Rightarrow> filters option \<Rightarrow> expense \<Rightarrow> bool" where
  "where_clause userId fo r =
     (sql_true (sql_or (sql_eq (created_by r) (Some userId)) (Some (created_by r = None)))
      \<and> (case fo of
           None \<Rightarrow> True
         | Some f \<Rightarrow>
             (case startDate f of None \<Rightarrow> True | Some d \<Rightarrow> date_of r \<ge> d)
             \<and> (case endDate f of None \<Rightarrow> True | Some d \<Rightarrow> date_of r \<le> d)
             \<and> (case provider f of
                   None \<Rightarrow> True
                 | Some pr \<Rightarrow>
                     pr = [] \<or>
                     sql_true (sql_or (sql_ilike (provider_name r) (''%'' @ pr @ ''%''))
                                      (sql_ilike (provider_masked_name r) (''%'' @ pr @ ''%''))))
             \<and> (case f_category f of
                   None \<Rightarrow> True
                 | Some c \<Rightarrow> c = [] \<or> sql_true (sql_eq (category r) (Some c)))
             \<and> (case minAmount f of
                   None \<Rightarrow> True
                 | Some a \<Rightarrow> a = 0 \<or> sql_true (sql_ge (amount_of r) (Some a)))
             \<and> (case maxAmount f of
                   None \<Rightarrow> True
                 | Some a \<Rightarrow> a = 0 \<or> sql_true (sql_ge (Some a) (amount_of r)))))"

text \<open>
  \<open>findAll\<close>: the rows that satisfy the \<open>WHERE\<close> clause, by descending date (SQL leaves
  the order of equal dates open; the model keeps the order of the table). With
  \<open>showMasked\<close> every column is selected; without it the columns are listed, and the list
  has every column of the row but \<open>file_path\<close>. \<open>provider_name\<close> and
  \<open>provider_masked_name\<close> are selected as they are stored in both cases.
\<close>

definition select_fields :: "filters option \<Rightarrow> expense \<Rightarrow> expense" where
  "select_fields fo r =
     (if (case fo of None \<Rightarrow> False | Some f \<Rightarrow> showMasked f) then r
      else r\<lparr>file_path := None\<rparr>)"

definition findAll :: "nat \<Rightarrow> filters option \<Rightarrow> expense list \<Rightarrow> expense list" where
  "findAll userId fo expenses =
     map (select_fields fo)
       (sort_key (\<lambda>r. - date_of r) (filter (where_clause userId fo) expenses))"

text \<open>
  The fourth query of \<open>getStats\<close> and the \<open>topProviders\<close> the method builds from it:
  the visible rows grouped by \<open>provider_name\<close>, with the sum of the amounts and the number
  of rows of each group, the five largest sums first; \<open>is_masked\<close> is the constant
  \<open>false\<close>. The amounts of stored rows are not \<open>NULL\<close>.
\<close>

record provider_stat =
  ps_name :: "string option"
  ps_total :: rat
  ps_count :: nat
  ps_masked :: bool

definition group_rows :: "nat \<Rightarrow> expense list \<Rightarrow> string option \<Rightarrow> expense list" where
  "group_rows userId expenses g =
     filter (\<lambda>r. provider_name r = g) (filter (where_clause userId None) expenses)"

definition topProviders :: "nat \<Rightarrow> expense list \<Rightarrow> provider_stat list" where
  "topProviders userId expenses =
     (let groups = remdups (map provider_name (filter (where_clause userId None) expenses));
          rows = map (\<lambda>g. \<lparr>ps_name = g,
                            ps_total = (\<Sum>r \<leftarrow> group_rows userId expenses g.
                                          (case amount_of r of None \<Rightarrow> 0 | Some a \<Rightarrow> a)),
                            ps_count = length (group_rows userId expenses g),
                            ps_masked = False\<rparr>) groups
      in take 5 (sort_key (\<lambda>p. - ps_total p) rows))"

text \<open>
  \<open>create\<close>: the sensitivity level is looked up with \<open>get_provider_sensitivity\<close>, the row
  is inserted, and the trigger of \<open>createTables\<close> runs on it before it is stored.
\<close>

record expense_create_request =
  req_provider_name :: string
  req_amount :: rat
  req_date :: int
  req_category :: "string option"

definition create ::
  "pg_timestamp \<Rightarrow> nat \<Rightarrow> expense_create_request \<Rightarrow> nat \<Rightarrow> expense list \<Rightarrow> expense list" where
  "create now newId req_data userId expenses =
     expenses @
     [set_expense_defaults now
        \<lparr>id = newId,
         provider_name = Some (req_provider_name req_data),
         provider_masked_name = None,
         amount_of = Some (req_amount req_data),
         date_of = req_date req_data,
         category = req_category req_data,
         sensitivity_level = Some (get_provider_sensitivity (Some (req_provider_name req_data))),
         file_id = None,
         file_path = None,
         file_retention_policy = Some ''DELETE'',
         created_by = Some userId,
         created_at = Some now,
         updated_at = Some now,
         retention_until = None\<rparr>]"

section \<open>Example inputs\<close>

definition anthropic_table :: "expense list" where
  \<comment> \<open>an empty table after user 7 has created one expense of the vendor Anthropic\<close>
  "anthropic_table =
     create (Timestamp 100) 1
       \<lparr>req_provider_name = ''Anthropic'', req_amount = 120, req_date = 5, req_category = None\<rparr>
       7 []"


text \<open>
  An environment for the upload route at concrete inputs: the ASCII decoder, stand-ins
  for the two libraries that return the bytes of the buffer as its text, and the default
  settings.
\<close>

definition example_env :: "amount_currency upload_env" where
  "example_env =
     \<lparr>env_dec = ascii_lower, env_startTime = 0, env_endTime = 1,
      env_libs = \<lparr>pdfParse = (\<lambda>b. Inr (Some (map of_char b))),
                  recognize = (\<lambda>b lang. Inr (Some (map of_char b), Some 90))\<rparr>,
      env_maxBytes = 10485760, env_previewLimit = 5000, env_tessLang = ''eng+heb'',
      env_parse = parseAmountCurrency\<rparr>"

definition example_upload :: "buffer \<Rightarrow> uploaded_file" where
  "example_upload b =
     \<lparr>file_buffer = b, originalname = ''invoice.pdf'', mimetype = ''application/pdf'',
      file_size = length b\<rparr>"

text \<open>The tags of the macro check are the ones that start with \<open>MACRO\<close>.\<close>

definition is_macro_tag :: "string \<Rightarrow> bool" where
  "is_macro_tag t = (take 5 t = ''MACRO'')"

section \<open>Lists, prefixes and sublists\<close>

lemma startsWith_iff: "startsWith xs ys \<longleftrightarrow> (\<exists>ss. xs = ys @ ss)"
  by (induction xs ys rule: startsWith.induct) auto

lemma js_includes_iff: "js_includes xs ys \<longleftrightarrow> (\<exists>ps ss. xs = ps @ ys @ ss)"
proof (induction xs)
  case Nil
  then show ?case by auto
next
  case (Cons x xs)
  show ?case
  proof
    assume "js_includes (x # xs) ys"
    then consider "startsWith (x # xs) ys" | "js_includes xs ys" by auto
    then show "\<exists>ps ss. x # xs = ps @ ys @ ss"
    proof cases
      case 1
      then obtain ss where "x # xs = ys @ ss" by (auto simp: startsWith_iff)
      then have "x # xs = [] @ ys @ ss" by simp
      then show ?thesis by blast
    next
      case 2
      then obtain ps ss where "xs = ps @ ys @ ss" using Cons.IH by auto
      then have "x # xs = (x # ps) @ ys @ ss" by simp
      then show ?thesis by blast
    qed
  next
    assume "\<exists>ps ss. x # xs = ps @ ys @ ss"
    then obtain ps ss where e: "x # xs = ps @ ys @ ss" by auto
    show "js_includes (x # xs) ys"
    proof (cases ps)
      case Nil
      with e have "startsWith (x # xs) ys" by (auto simp: startsWith_iff)
      then show ?thesis by simp
    next
      case (Cons p ps')
      with e have "xs = ps' @ ys @ ss" by simp
      then have "js_includes xs ys" using Cons.IH by blast
      then show ?thesis by simp
    qed
  qed
qed

lemma drop_last: "xs \<noteq> [] \<Longrightarrow> drop (length xs - 1) xs = [last xs]"
  by (metis append_butlast_last_id append_eq_conv_conj length_butlast)

section \<open>Retention\<close>




section \<open>Classification and masking\<close>

lemma lower_char_star: "lower_char c \<noteq> CHR ''*'' \<Longrightarrow> c \<noteq> CHR ''*''"
  by (auto simp: lower_char_def)

lemma high_keywords_shape:
  "k \<in> set high_keywords \<Longrightarrow> 4 \<le> length k \<and> k ! 2 \<noteq> CHR ''*''"
  by (auto simp: high_keywords_def)

text \<open>A name with a HIGH keyword in it has a character that is not a star strictly
  between its first two characters and its last one.\<close>

lemma keyword_inside:
  assumes "k \<in> set high_keywords" and "LOWER name = ps @ k @ ss"
  shows "2 \<le> length ps + 2 \<and> length ps + 2 < length name - 1
         \<and> name ! (length ps + 2) \<noteq> CHR ''*''"
proof -
  from assms(1) have k: "4 \<le> length k" "k ! 2 \<noteq> CHR ''*''"
    using high_keywords_shape by auto
  have len: "length name = length ps + length k + length ss"
    using assms(2) by (metis LOWER_def length_append length_map add.assoc)
  have "LOWER name ! (length ps + 2) = k ! 2"
    using assms(2) k(1) by (simp add: nth_append)
  moreover have "length ps + 2 < length name" using len k(1) by simp
  ultimately have "lower_char (name ! (length ps + 2)) = k ! 2"
    by (simp add: LOWER_def)
  then have "name ! (length ps + 2) \<noteq> CHR ''*''"
    using k(2) lower_char_star by metis
  then show ?thesis using len k(1) by simp
qed

lemma mask_high_differs:
  assumes "3 < length name" and "2 \<le> i" and "i < length name - 1" and "name ! i \<noteq> CHR ''*''"
  shows "take 2 name @ replicate (length name - 3) (CHR ''*'') @ drop (length name - 1) name
         \<noteq> name"
proof
  assume e: "take 2 name @ replicate (length name - 3) (CHR ''*'')
             @ drop (length name - 1) name = name"
  have "(take 2 name @ replicate (length name - 3) (CHR ''*'')
         @ drop (length name - 1) name) ! i = CHR ''*''"
  proof -
    have "i - 2 < length name - 3" using assms(1-3) by arith
    then show ?thesis using assms(1-3) by (simp add: nth_append)
  qed
  with e assms(4) show False by simp
qed

text \<open>
  C2. A vendor name in which a HIGH keyword occurs, whatever the case of its letters, is
  classified HIGH, by \<open>get_provider_sensitivity\<close> and by the trigger that stores the row,
  and its masked name differs from the name. A name of at most 3 characters is masked to
  \<open>***\<close>; a longer one keeps its first two characters and its last one, with stars between.
\<close>

theorem C2_high_keyword_masked:
  "(k \<in> set high_keywords \<and> LOWER name = ps @ k @ ss \<longrightarrow>
      get_provider_sensitivity (Some name) = ''HIGH''
      \<and> mask_provider_name (Some name) (Some (get_provider_sensitivity (Some name))) \<noteq> Some name
      \<and> sensitivity_level (set_expense_defaults now
           (NEW\<lparr>provider_name := Some name, sensitivity_level := Some ''LOW''\<rparr>)) = Some ''HIGH''
      \<and> provider_masked_name (set_expense_defaults now
           (NEW\<lparr>provider_name := Some name, sensitivity_level := Some ''LOW''\<rparr>))
          = mask_provider_name (Some name) (Some ''HIGH''))
   \<and> (length n1 \<le> 3 \<longrightarrow> mask_provider_name (Some n1) (Some ''HIGH'') = Some ''***'')
   \<and> (3 < length n2 \<longrightarrow>
        mask_provider_name (Some n2) (Some ''HIGH'')
          = Some (take 2 n2 @ replicate (length n2 - 3) (CHR ''*'') @ [last n2]))"
proof (intro conjI impI)
  assume a: "k \<in> set high_keywords \<and> LOWER name = ps @ k @ ss"
  then have inc: "js_includes (LOWER name) k" by (auto simp: js_includes_iff)
  with a have "list_ex (\<lambda>k. js_includes (LOWER name) k) high_keywords"
    by (auto simp: list_ex_iff)
  then show h: "get_provider_sensitivity (Some name) = ''HIGH''"
    by (simp add: get_provider_sensitivity_def)
  from a have ki: "2 \<le> length ps + 2" "length ps + 2 < length name - 1"
      "name ! (length ps + 2) \<noteq> CHR ''*''"
    using keyword_inside by blast+
  then have "3 < length name" by simp
  with ki show "mask_provider_name (Some name) (Some (get_provider_sensitivity (Some name)))
                \<noteq> Some name"
    using mask_high_differs[of name "length ps + 2"] by (simp add: h mask_provider_name_def)
  show "sensitivity_level (set_expense_defaults now
           (NEW\<lparr>provider_name := Some name, sensitivity_level := Some ''LOW''\<rparr>)) = Some ''HIGH''"
    by (simp add: set_expense_defaults_def h sql_true_def sql_and_def sql_eq_def Let_def)
  show "provider_masked_name (set_expense_defaults now
           (NEW\<lparr>provider_name := Some name, sensitivity_level := Some ''LOW''\<rparr>))
          = mask_provider_name (Some name) (Some ''HIGH'')"
    by (simp add: set_expense_defaults_def h sql_true_def sql_and_def sql_eq_def Let_def)
next
  assume "length n1 \<le> 3"
  then show "mask_provider_name (Some n1) (Some ''HIGH'') = Some ''***''"
    by (simp add: mask_provider_name_def)
next
  assume "3 < length n2"
  then show "mask_provider_name (Some n2) (Some ''HIGH'')
          = Some (take 2 n2 @ replicate (length n2 - 3) (CHR ''*'') @ [last n2])"
    using drop_last[of n2] by (cases n2) (auto simp: mask_provider_name_def)
qed

theorem C2_high_keyword_masked_witness:
  "get_provider_sensitivity (Some ''Anthropic'') = ''HIGH''
   \<and> mask_provider_name (Some ''Anthropic'') (Some (get_provider_sensitivity (Some ''Anthropic'')))
       \<noteq> Some ''Anthropic''
   \<and> mask_provider_name (Some ''AB'') (Some ''HIGH'') = Some ''***''
   \<and> mask_provider_name (Some ''Bank'') (Some ''HIGH'') = Some ''Ba*k''"
proof -
  have h: "''anthropic'' \<in> set high_keywords \<and> LOWER ''Anthropic'' = [] @ ''anthropic'' @ []"
    by code_simp
  have l: "length ''AB'' \<le> 3" "3 < length ''Bank''" by simp_all
  have e: "take 2 ''Bank'' @ replicate (length ''Bank'' - 3) (CHR ''*'') @ [last ''Bank'']
           = ''Ba*k''" by simp
  show ?thesis
    using C2_high_keyword_masked [where k = "''anthropic''" and name = "''Anthropic''"
        and ps = "[]" and ss = "[]" and ?n1.0 = "''AB''" and ?n2.0 = "''Bank''"]
      h l e by metis
qed

section \<open>Reading stored expenses back\<close>

lemma select_fields_keeps:
  "provider_name (select_fields fo r) = provider_name r"
  "provider_masked_name (select_fields fo r) = provider_masked_name r"
  "sensitivity_level (select_fields fo r) = sensitivity_level r"
  "id (select_fields fo r) = id r"
  by (simp_all add: select_fields_def)

lemma findAll_set:
  "set (findAll userId fo tbl) = select_fields fo ` {r \<in> set tbl. where_clause userId fo r}"
  by (simp add: findAll_def)

lemma where_clause_None:
  "where_clause userId None r \<longleftrightarrow> (created_by r = Some userId \<or> created_by r = None)"
  by (cases "created_by r") (auto simp: where_clause_def sql_true_def sql_or_def sql_eq_def)

lemma topProviders_set:
  assumes "p \<in> set (topProviders userId tbl)"
  shows "ps_masked p = False
         \<and> (\<exists>r \<in> set tbl. where_clause userId None r \<and> ps_name p = provider_name r)"
proof -
  from assms have "p \<in> set (sort_key (\<lambda>p. - ps_total p)
        (map (\<lambda>g. \<lparr>ps_name = g,
                    ps_total = (\<Sum>r \<leftarrow> group_rows userId tbl g.
                                  (case amount_of r of None \<Rightarrow> 0 | Some a \<Rightarrow> a)),
                    ps_count = length (group_rows userId tbl g),
                    ps_masked = False\<rparr>)
             (remdups (map provider_name (filter (where_clause userId None) tbl)))))"
    unfolding topProviders_def Let_def by (rule in_set_takeD)
  then show ?thesis by auto
qed

text \<open>
  C3 (as amended). Reading back returns the provider name as it is stored, at every
  sensitivity level, HIGH included: every row that \<open>findAll\<close> lists carries the stored
  \<open>provider_name\<close> next to the stored \<open>provider_masked_name\<close>; without filters every row
  the user may see is listed; and every entry of the top providers is named by a stored
  \<open>provider_name\<close> and is flagged as not masked.
\<close>

theorem C3_readback:
  "(\<forall>r' \<in> set (findAll userId fo tbl). \<exists>r \<in> set tbl.
       provider_name r' = provider_name r
       \<and> provider_masked_name r' = provider_masked_name r
       \<and> sensitivity_level r' = sensitivity_level r)
   \<and> (r \<in> set tbl \<and> (created_by r = Some userId \<or> created_by r = None) \<longrightarrow>
        (\<exists>r' \<in> set (findAll userId None tbl).
            id r' = id r \<and> provider_name r' = provider_name r
            \<and> sensitivity_level r' = sensitivity_level r))
   \<and> (\<forall>p \<in> set (topProviders userId tbl).
        ps_masked p = False \<and> (\<exists>r \<in> set tbl. ps_name p = provider_name r))"
proof (intro conjI ballI impI)
  fix r' assume "r' \<in> set (findAll userId fo tbl)"
  then obtain r0 where "r0 \<in> set tbl" "r' = select_fields fo r0"
    by (auto simp: findAll_set)
  then show "\<exists>r \<in> set tbl. provider_name r' = provider_name r
       \<and> provider_masked_name r' = provider_masked_name r
       \<and> sensitivity_level r' = sensitivity_level r"
    using select_fields_keeps by blast
next
  assume a: "r \<in> set tbl \<and> (created_by r = Some userId \<or> created_by r = None)"
  then have "select_fields None r \<in> set (findAll userId None tbl)"
    by (auto simp: findAll_set where_clause_None)
  then show "\<exists>r' \<in> set (findAll userId None tbl).
            id r' = id r \<and> provider_name r' = provider_name r
            \<and> sensitivity_level r' = sensitivity_level r"
    using select_fields_keeps by blast
next
  fix p assume "p \<in> set (topProviders userId tbl)"
  then show "ps_masked p = False" using topProviders_set by blast
next
  fix p assume "p \<in> set (topProviders userId tbl)"
  then show "\<exists>r \<in> set tbl. ps_name p = provider_name r" using topProviders_set by blast
qed

theorem C3_readback_witness:
  "(\<exists>r' \<in> set (findAll 7 None anthropic_table).
       sensitivity_level r' = Some ''HIGH'' \<and> provider_name r' = Some ''Anthropic'')
   \<and> list_all (\<lambda>p. ps_masked p = False) (topProviders 7 anthropic_table)"
proof -
  have m: "hd anthropic_table \<in> set anthropic_table
           \<and> (created_by (hd anthropic_table) = Some 7 \<or> created_by (hd anthropic_table) = None)"
    by (simp add: anthropic_table_def create_def set_expense_defaults_def Let_def)
  have v: "sensitivity_level (hd anthropic_table) = Some ''HIGH''"
     "provider_name (hd anthropic_table) = Some ''Anthropic''"
    by code_simp+
  from m v show ?thesis
    using C3_readback [where userId = 7 and fo = None and tbl = anthropic_table
        and r = "hd anthropic_table"] unfolding list_all_iff by metis
qed

text \<open>
  The claim C3 as stated fails: the expense of the vendor Anthropic is stored at level
  HIGH with the masked name \<open>An******c\<close>, and both the listing and the top providers
  return the name \<open>Anthropic\<close>.
\<close>

theorem C3_counterexample:
  "map sensitivity_level anthropic_table = [Some ''HIGH'']
   \<and> map provider_masked_name anthropic_table = [Some ''An******c'']
   \<and> map provider_name (findAll 7 None anthropic_table) = [Some ''Anthropic'']
   \<and> map ps_name (topProviders 7 anthropic_table) = [Some ''Anthropic'']"
  by code_simp

section \<open>The scanner\<close>

lemma scan_checks_eq:
  "scan_checks dec b m =
     (case dec b of
        None \<Rightarrow> Inl ERR_STRING_TOO_LONG
      | Some content \<Rightarrow>
          Inr (checkFileSignatures b
               @ (if isPotentialMacroDocument m b then macro_loop macroPatterns content [] else [])
               @ suspicious_scan content @ checkFileSizeAnomalies b m))"
  by (simp add: scan_checks_def checkForMacros_def checkSuspiciousPatterns_def Let_def
      split: option.splits)

lemma scanFile_fail:
  "dec b = None \<Longrightarrow>
   scanFile dec t0 t1 b fn m =
     \<lparr>isClean = False, threats = [''SCAN_ERROR: Unable to complete security scan''],
      scanTime = t1 - t0\<rparr>"
  by (simp add: scanFile_def scan_checks_eq)

lemma scanFile_ok:
  "dec b = Some content \<Longrightarrow>
   threats (scanFile dec t0 t1 b fn m) =
     checkFileSignatures b
     @ (if isPotentialMacroDocument m b then macro_loop macroPatterns content [] else [])
     @ suspicious_scan content @ checkFileSizeAnomalies b m"
  by (simp add: scanFile_def scan_checks_eq)

lemma scanFile_clean_iff:
  "isClean (scanFile dec t0 t1 b fn m) \<longleftrightarrow> threats (scanFile dec t0 t1 b fn m) = []"
  by (cases "scan_checks dec b m") (simp_all add: scanFile_def)

text \<open>
  C4. The result of a scan is clean exactly when its list of threat tags is empty, so an
  unclean result carries at least one tag. When the scan of an uploaded file is unclean,
  the route stops with an error after the scan: it calls neither the extraction nor the
  parsing stage.
\<close>

theorem C4_scan_gate:
  "(isClean (scanFile dec t0 t1 b fn m) \<longleftrightarrow> threats (scanFile dec t0 t1 b fn m) = [])
   \<and> (\<not> isClean (scanFile (env_dec env) (env_startTime env) (env_endTime env)
                  (file_buffer f) (originalname f) (mimetype f)) \<longrightarrow>
        ExtractStage \<notin> set (fst (uploadInvoice env (Some f)))
        \<and> ParseStage \<notin> set (fst (uploadInvoice env (Some f)))
        \<and> (\<exists>msg code. snd (uploadInvoice env (Some f)) = Inl (HttpError msg code)))"
  by (auto simp: scanFile_clean_iff uploadInvoice_def Let_def)

lemmas rx_eval = regexp_test_def regexp_literal_def js_def bsl_def canonicalize_def
  cls_digit_def cls_space_def cls_letter_i_def cls_not_letter_i_def cls_sep_def

lemmas scan_eval = scanFile_def scan_checks_def checkFileSignatures_def toHex_def hexByte_def
  hexDigit_def isPotentialMacroDocument_def checkForMacros_def macroPatterns_def macroTag_def
  checkSuspiciousPatterns_def suspicious_scan_def suspiciousPatterns_def suspiciousTag_def
  checkFileSizeAnomalies_def ascii_lower_def

lemma unclean_eval:
  "\<not> isClean (scanFile ascii_lower 0 1 ''%PDF eval('' ''invoice.pdf'' ''application/pdf'')"
  by (simp add: scan_eval rx_eval)

theorem C4_scan_gate_witness:
  "\<not> isClean (scanFile ascii_lower 0 1 ''%PDF eval('' ''invoice.pdf'' ''application/pdf'')
   \<and> ExtractStage \<notin> set (fst (uploadInvoice example_env (Some (example_upload ''%PDF eval(''))))
   \<and> ParseStage \<notin> set (fst (uploadInvoice example_env (Some (example_upload ''%PDF eval(''))))
   \<and> fst (uploadInvoice example_env (Some (example_upload ''%PDF eval(''))) = [ScanStage]"
proof -
  have r: "fst (uploadInvoice example_env (Some (example_upload ''%PDF eval(''))) = [ScanStage]"
    using unclean_eval
    by (simp add: uploadInvoice_def example_env_def example_upload_def validateFileType_def
        js_def Let_def)
  have u: "\<not> isClean (scanFile (env_dec example_env) (env_startTime example_env)
               (env_endTime example_env) (file_buffer (example_upload ''%PDF eval(''))
               (originalname (example_upload ''%PDF eval(''))
               (mimetype (example_upload ''%PDF eval('')))"
    using unclean_eval by (simp add: example_env_def example_upload_def)
  show ?thesis
    using u r unclean_eval
      C4_scan_gate [where env = example_env and f = "example_upload ''%PDF eval(''"
        and dec = ascii_lower and ?t0.0 = 0 and ?t1.0 = 1 and b = "''%PDF eval(''" and fn = "''invoice.pdf''"
        and m = "''application/pdf''"]
    by blast
qed

text \<open>
  C5. \<open>scanFile\<close> returns a result on every input. When a check inside it fails (here:
  the runtime cannot decode the buffer, which the pattern check always needs), the result
  is unclean and its only tag is the \<open>SCAN_ERROR\<close> tag; a result that is clean comes from
  checks that all completed.
\<close>

theorem C5_fail_closed:
  "(scan_checks dec b m = Inl e \<longrightarrow>
      scanFile dec t0 t1 b fn m =
        \<lparr>isClean = False, threats = [''SCAN_ERROR: Unable to complete security scan''],
         scanTime = t1 - t0\<rparr>)
   \<and> (dec b = None \<longrightarrow>
      checkSuspiciousPatterns dec b = Inl ERR_STRING_TOO_LONG
      \<and> scanFile dec t0 t1 b fn m =
        \<lparr>isClean = False, threats = [''SCAN_ERROR: Unable to complete security scan''],
         scanTime = t1 - t0\<rparr>)
   \<and> (isClean (scanFile dec t0 t1 b fn m) \<longrightarrow> (\<exists>tags. scan_checks dec b m = Inr tags))"
  by (cases "scan_checks dec b m")
     (auto simp: scanFile_def scan_checks_eq checkSuspiciousPatterns_def split: option.splits)

theorem C5_fail_closed_witness:
  "scanFile (\<lambda>b. None) 0 1 ''%PDF-1.4'' ''invoice.pdf'' ''application/pdf'' =
        \<lparr>isClean = False, threats = [''SCAN_ERROR: Unable to complete security scan''],
         scanTime = 1\<rparr>"
  using C5_fail_closed [where dec = "\<lambda>b. None" and b = "''%PDF-1.4''" and ?t0.0 = 0
      and ?t1.0 = 1 and fn = "''invoice.pdf''" and m = "''application/pdf''"]
  by simp

lemma toHex_append: "toHex (xs @ ys) = toHex xs @ toHex ys"
  by (simp add: toHex_def)

lemma toHex_MZ: "toHex ''MZ'' = ''4d5a''"
  by (simp add: toHex_def hexByte_def hexDigit_def)

lemma signature_MZ:
  assumes "length ps \<le> 14" and "b = ps @ ''MZ'' @ ss"
  shows "checkFileSignatures b = [''EXECUTABLE_EMBEDDED: Document contains executable code'']"
proof -
  have "16 - length ps = Suc (Suc (14 - length ps))" using assms(1) by arith
  then have "take 16 b = ps @ ''MZ'' @ take (14 - length ps) ss"
    using assms by simp
  then have "toHex (take 16 b) = toHex ps @ ''4d5a'' @ toHex (take (14 - length ps) ss)"
    by (simp only: toHex_append toHex_MZ)
  then have "js_includes (toHex (take 16 b)) ''4d5a''"
    unfolding js_includes_iff by blast
  then show ?thesis by (simp add: checkFileSignatures_def)
qed

text \<open>
  C7 (as amended). A buffer that has the bytes \<open>MZ\<close> within its first 16 bytes is never
  reported clean, and when the scan completes its tags include \<open>EXECUTABLE_EMBEDDED\<close>.
\<close>

theorem C7_signature_in_header:
  "length ps \<le> 14 \<and> b = ps @ ''MZ'' @ ss \<longrightarrow>
     isClean (scanFile dec t0 t1 b fn m) = False
     \<and> (dec b \<noteq> None \<longrightarrow>
          ''EXECUTABLE_EMBEDDED: Document contains executable code''
            \<in> set (threats (scanFile dec t0 t1 b fn m)))"
proof (intro impI)
  assume a: "length ps \<le> 14 \<and> b = ps @ ''MZ'' @ ss"
  then have s: "checkFileSignatures b = [''EXECUTABLE_EMBEDDED: Document contains executable code'']"
    using signature_MZ by blast
  show "isClean (scanFile dec t0 t1 b fn m) = False
     \<and> (dec b \<noteq> None \<longrightarrow>
          ''EXECUTABLE_EMBEDDED: Document contains executable code''
            \<in> set (threats (scanFile dec t0 t1 b fn m)))"
  proof (cases "dec b")
    case None
    then show ?thesis by (simp add: scanFile_fail)
  next
    case (Some content)
    then have "threats (scanFile dec t0 t1 b fn m) \<noteq> []"
      and  "''EXECUTABLE_EMBEDDED: Document contains executable code''
            \<in> set (threats (scanFile dec t0 t1 b fn m))"
      using s by (simp_all add: scanFile_ok)
    then show ?thesis using scanFile_clean_iff by blast
  qed
qed

theorem C7_signature_in_header_witness:
  "isClean (scanFile ascii_lower 0 1 ''%PDF-MZ'' ''invoice.pdf'' ''application/pdf'') = False
   \<and> ''EXECUTABLE_EMBEDDED: Document contains executable code''
            \<in> set (threats (scanFile ascii_lower 0 1 ''%PDF-MZ'' ''invoice.pdf'' ''application/pdf''))"
proof -
  have "length ''%PDF-'' \<le> 14 \<and> ''%PDF-MZ'' = ''%PDF-'' @ ''MZ'' @ []" by simp
  moreover have "ascii_lower ''%PDF-MZ'' \<noteq> None" by (simp add: ascii_lower_def)
  ultimately show ?thesis
    using C7_signature_in_header [where ps = "''%PDF-''" and b = "''%PDF-MZ''" and ss = "[]"
        and dec = ascii_lower and ?t0.0 = 0 and ?t1.0 = 1 and fn = "''invoice.pdf''" and m = "''application/pdf''"]
    by blast
qed

text \<open>
  The claim C7 as stated fails: in this valid PDF the bytes \<open>MZ\<close> lie behind the first 16
  bytes, and the scan reports it clean.
\<close>

theorem C7_counterexample:
  "validateFileType ''%PDF-1.4 1 0 obj MZ'' ''application/pdf''
   \<and> js_includes ''%PDF-1.4 1 0 obj MZ'' ''MZ''
   \<and> scanFile ascii_lower 0 1 ''%PDF-1.4 1 0 obj MZ'' ''invoice.pdf'' ''application/pdf''
       = \<lparr>isClean = True, threats = [], scanTime = 1\<rparr>"
  by (simp add: scan_eval rx_eval validateFileType_def)

text \<open>
  C6, evaluated at a failing input. The decoded text of this PDF matches three distinct
  suspicious patterns, each once. The scan returns the three pattern tags and no
  \<open>HIGH_RISK\<close> tag: each pattern object has the \<open>g\<close> flag, the loop's \<open>test\<close> leaves its
  \<open>lastIndex\<close> behind the match, and the second \<open>test\<close> in the \<open>filter\<close> searches from
  there, so it counts only patterns that occur a second time.
\<close>

theorem C6_failing_input:
  "validateFileType ''%PDF powershell cmd.exe rundll32'' ''application/pdf''
   \<and> length (filter (\<lambda>p. fst (regexp_test p (js ''%pdf powershell cmd.exe rundll32'')))
                suspiciousPatterns) = 3
   \<and> scanFile ascii_lower 0 1 ''%PDF powershell cmd.exe rundll32'' ''invoice.pdf''
         ''application/pdf''
       = \<lparr>isClean = False,
          threats =
            [''SUSPICIOUS_PATTERN: Potentially malicious pattern detected (powershell)'',
             ''SUSPICIOUS_PATTERN: Potentially malicious pattern detected (cmd'' @ bsl @ ''.exe)'',
             ''SUSPICIOUS_PATTERN: Potentially malicious pattern detected (rundll32)''],
          scanTime = 1\<rparr>"
  by (simp add: scan_eval rx_eval validateFileType_def)

text \<open>With every one of the three patterns a second time in the text, the tag is there.\<close>

lemma high_risk_on_second_occurrences:
  "threats (scanFile ascii_lower 0 1 ''%PDF powershell cmd.exe rundll32 powershell cmd.exe rundll32''
              ''invoice.pdf'' ''application/pdf'')
   = [''SUSPICIOUS_PATTERN: Potentially malicious pattern detected (powershell)'',
      ''SUSPICIOUS_PATTERN: Potentially malicious pattern detected (cmd'' @ bsl @ ''.exe)'',
      ''SUSPICIOUS_PATTERN: Potentially malicious pattern detected (rundll32)'',
      ''HIGH_RISK: Multiple suspicious patterns detected'']"
  by (simp add: scan_eval rx_eval)

lemma macro_loop_eq:
  "macro_loop ps content acc
     = acc @ map macroTag (filter (\<lambda>p. fst (regexp_test p content)) ps)"
  by (induction ps arbitrary: acc) auto

lemma suspicious_loop_tags:
  "set (snd (suspicious_loop ps content acc)) \<subseteq> set acc \<union> suspiciousTag ` set ps"
proof (induction ps arbitrary: acc)
  case Nil
  then show ?case by simp
next
  case (Cons p ps)
  show ?case
    using Cons.IH [of "acc @ [suspiciousTag p]"] Cons.IH [of acc]
    by (auto simp: Let_def split: prod.splits if_splits)
qed

lemma macroTag_is: "is_macro_tag (macroTag p)"
  by (simp add: is_macro_tag_def macroTag_def)

lemma suspicious_scan_tags: "t \<in> set (suspicious_scan content) \<Longrightarrow> \<not> is_macro_tag t"
proof -
  assume a: "t \<in> set (suspicious_scan content)"
  obtain ps' tags where l: "suspicious_loop suspiciousPatterns content [] = (ps', tags)"
    by (cases "suspicious_loop suspiciousPatterns content []") auto
  with a have "t \<in> set tags \<or> t = ''HIGH_RISK: Multiple suspicious patterns detected''"
    by (auto simp: suspicious_scan_def Let_def split: if_splits)
  moreover have "set tags \<subseteq> suspiciousTag ` set suspiciousPatterns"
    using suspicious_loop_tags [of suspiciousPatterns content "[]"] l by simp
  ultimately show ?thesis
    by (auto simp: is_macro_tag_def suspiciousTag_def)
qed

lemma signature_tags: "t \<in> set (checkFileSignatures b) \<Longrightarrow> \<not> is_macro_tag t"
  by (auto simp: checkFileSignatures_def is_macro_tag_def Let_def split: if_splits)

lemma size_tags: "t \<in> set (checkFileSizeAnomalies b m) \<Longrightarrow> \<not> is_macro_tag t"
  by (auto simp: checkFileSizeAnomalies_def is_macro_tag_def Let_def split: if_splits)

lemma distinct_count_list:
  "distinct xs \<Longrightarrow> count_list xs x = (if x \<in> set xs then 1 else 0)"
  by (induction xs) auto

lemma macro_tags_distinct: "distinct (map macroTag macroPatterns)"
  by (simp add: macroPatterns_def macroTag_def regexp_literal_def bsl_def)

lemma macro_count:
  assumes "p \<in> set macroPatterns"
  shows "count_list (macro_loop macroPatterns content []) (macroTag p)
         = (if fst (regexp_test p content) then 1 else 0)"
proof -
  let ?P = "\<lambda>p. fst (regexp_test p content)"
  have d: "distinct (map macroTag (filter ?P macroPatterns))"
    using macro_tags_distinct by (rule distinct_map_filter)
  have inj: "inj_on macroTag (set macroPatterns)"
    using macro_tags_distinct by (simp add: distinct_map)
  have "macroTag p \<in> set (map macroTag (filter ?P macroPatterns)) \<longleftrightarrow> ?P p"
    using assms inj by (auto simp: inj_on_def)
  then show ?thesis
    using d by (simp add: macro_loop_eq distinct_count_list)
qed

lemma count_list_0: "x \<notin> set xs \<Longrightarrow> count_list xs x = 0"
  by (induction xs) auto

text \<open>
  C9 (as amended). When the scan completes, the tag that names a script-indicator pattern
  occurs once in the result if the media type is \<open>application/pdf\<close> or the raw bytes
  contain \<open>macro\<close> or \<open>script\<close> in exactly these lower-case bytes, and the pattern matches
  the decoded text; otherwise it does not occur.
\<close>

theorem C9_macro_gate:
  "dec b = Some content \<and> p \<in> set macroPatterns \<longrightarrow>
     count_list (threats (scanFile dec t0 t1 b fn m)) (macroTag p)
       = (if (m = ''application/pdf'' \<or> (\<exists>ps ss. b = ps @ ''macro'' @ ss)
              \<or> (\<exists>ps ss. b = ps @ ''script'' @ ss))
             \<and> fst (regexp_test p content)
          then 1 else 0)"
proof (intro impI)
  assume a: "dec b = Some content \<and> p \<in> set macroPatterns"
  have g: "isPotentialMacroDocument m b \<longleftrightarrow>
           (m = ''application/pdf'' \<or> (\<exists>ps ss. b = ps @ ''macro'' @ ss)
              \<or> (\<exists>ps ss. b = ps @ ''script'' @ ss))"
    by (simp add: isPotentialMacroDocument_def js_includes_iff)
  have z1: "count_list (checkFileSignatures b) (macroTag p) = 0"
    using signature_tags macroTag_is by (intro count_list_0) blast
  have z2: "count_list (suspicious_scan content) (macroTag p) = 0"
    using suspicious_scan_tags macroTag_is by (intro count_list_0) blast
  have z3: "count_list (checkFileSizeAnomalies b m) (macroTag p) = 0"
    using size_tags macroTag_is by (intro count_list_0) blast
  have "count_list (threats (scanFile dec t0 t1 b fn m)) (macroTag p)
        = (if isPotentialMacroDocument m b
           then count_list (macro_loop macroPatterns content []) (macroTag p) else 0)"
    using a z1 z2 z3 by (simp add: scanFile_ok)
  then show "count_list (threats (scanFile dec t0 t1 b fn m)) (macroTag p)
       = (if (m = ''application/pdf'' \<or> (\<exists>ps ss. b = ps @ ''macro'' @ ss)
              \<or> (\<exists>ps ss. b = ps @ ''script'' @ ss))
             \<and> fst (regexp_test p content)
          then 1 else 0)"
    using a macro_count [of p content] g by auto
qed

lemma eval_pattern: "macroPatterns ! 5 \<in> set macroPatterns"
  by (simp add: macroPatterns_def)

theorem C9_macro_gate_witness:
  "count_list (threats (scanFile ascii_lower 0 1 ''<script>eval (x)'' ''logo.png'' ''image/png''))
       (macroTag (macroPatterns ! 5)) = 1"
proof -
  have d: "ascii_lower ''<script>eval (x)'' = Some (js ''<script>eval (x)'')"
    by (simp add: ascii_lower_def js_def)
  have t: "fst (regexp_test (macroPatterns ! 5) (js ''<script>eval (x)''))"
    by (simp add: macroPatterns_def rx_eval)
  have s: "''<script>eval (x)'' = ''<'' @ ''script'' @ ''>eval (x)''" by simp
  show ?thesis
    using C9_macro_gate [where dec = ascii_lower and b = "''<script>eval (x)''"
        and content = "js ''<script>eval (x)''" and p = "macroPatterns ! 5" and ?t0.0 = 0
        and ?t1.0 = 1 and fn = "''logo.png''" and m = "''image/png''"]
      d t s eval_pattern by metis
qed

text \<open>
  The claim C9 as stated fails: the bytes of this PNG upload contain \<open>script\<close> when case
  is ignored, and a script-indicator pattern matches its decoded text, but the macro check
  does not run and the scan returns no tag.
\<close>

theorem C9_counterexample:
  "js_includes (LOWER ''<SCRIPT>EVAL (X)'') ''script''
   \<and> \<not> isPotentialMacroDocument ''image/png'' ''<SCRIPT>EVAL (X)''
   \<and> ascii_lower ''<SCRIPT>EVAL (X)'' = Some (js ''<script>eval (x)'')
   \<and> fst (regexp_test (macroPatterns ! 5) (js ''<script>eval (x)''))
   \<and> threats (scanFile ascii_lower 0 1 ''<SCRIPT>EVAL (X)'' ''logo.png'' ''image/png'') = []"
  by (simp add: scan_eval rx_eval LOWER_def lower_char_def)

section \<open>Amounts and currencies\<close>

lemmas parse_eval = normalizeAmount_def js_trim_def rx_comma2_def rx_dot2_def
  parseAmountCurrency_def clean_text_def currencyRegex_def rx_amount_def rx_symbols_def
  rx_codes_def symbolToCode_def normalizeCurrencyCode_def toUpperCase_def truthy_def

lemma rx_find_None:
  "rx_find ic r i xs \<noteq> None \<longleftrightarrow> (\<exists>pre suf. xs = pre @ suf \<and> rx_run ic r suf [] \<noteq> [])"
proof (induction xs arbitrary: i)
  case Nil
  show ?case by (cases "rx_run ic r [] []") auto
next
  case (Cons x xs)
  have step: "rx_find ic r i (x # xs) \<noteq> None
      \<longleftrightarrow> rx_run ic r (x # xs) [] \<noteq> [] \<or> rx_find ic r (Suc i) xs \<noteq> None"
    by (cases "rx_run ic r (x # xs) []") auto
  have "(\<exists>pre suf. x # xs = pre @ suf \<and> rx_run ic r suf [] \<noteq> [])
        \<longleftrightarrow> rx_run ic r (x # xs) [] \<noteq> [] \<or> (\<exists>pre suf. xs = pre @ suf \<and> rx_run ic r suf [] \<noteq> [])"
  proof
    assume "\<exists>pre suf. x # xs = pre @ suf \<and> rx_run ic r suf [] \<noteq> []"
    then obtain pre suf where e: "x # xs = pre @ suf" "rx_run ic r suf [] \<noteq> []" by blast
    show "rx_run ic r (x # xs) [] \<noteq> [] \<or> (\<exists>pre suf. xs = pre @ suf \<and> rx_run ic r suf [] \<noteq> [])"
    proof (cases pre)
      case Nil
      with e show ?thesis by simp
    next
      case (Cons p pre')
      with e have "xs = pre' @ suf" by simp
      with e show ?thesis by blast
    qed
  next
    assume "rx_run ic r (x # xs) [] \<noteq> [] \<or> (\<exists>pre suf. xs = pre @ suf \<and> rx_run ic r suf [] \<noteq> [])"
    then show "\<exists>pre suf. x # xs = pre @ suf \<and> rx_run ic r suf [] \<noteq> []"
    proof
      assume "rx_run ic r (x # xs) [] \<noteq> []"
      then have "x # xs = [] @ (x # xs) \<and> rx_run ic r (x # xs) [] \<noteq> []" by simp
      then show ?thesis by blast
    next
      assume "\<exists>pre suf. xs = pre @ suf \<and> rx_run ic r suf [] \<noteq> []"
      then obtain pre suf where "xs = pre @ suf" "rx_run ic r suf [] \<noteq> []" by blast
      then have "x # xs = (x # pre) @ suf \<and> rx_run ic r suf [] \<noteq> []" by simp
      then show ?thesis by blast
    qed
  qed
  then show ?case using step Cons.IH [of "Suc i"] by simp
qed

lemma run_two_digits_eos:
  "rx_run ic (Seq (Cls cls_digit) (Seq (Cls cls_digit) Eos)) t c \<noteq> []
   \<longleftrightarrow> (\<exists>d1 d2. t = [d1, d2] \<and> cls_digit d1 \<and> cls_digit d2)"
proof (cases t)
  case Nil
  then show ?thesis by simp
next
  case (Cons d1 t1)
  show ?thesis
  proof (cases t1)
    case Nil
    with Cons show ?thesis by simp
  next
    case (Cons d2 t2)
    with \<open>t = d1 # t1\<close> show ?thesis by (cases t2) auto
  qed
qed

lemma run_sep2:
  "rx_run False (Seq (Lit [sep]) (Seq (Cls cls_digit) (Seq (Cls cls_digit) Eos))) xs [] \<noteq> []
   \<longleftrightarrow> (\<exists>d1 d2. xs = [sep, d1, d2] \<and> cls_digit d1 \<and> cls_digit d2)"
proof (cases xs)
  case Nil
  then show ?thesis by simp
next
  case (Cons x t)
  define R where "R = Seq (Cls cls_digit) (Seq (Cls cls_digit) Eos)"
  have "rx_run False (Seq (Lit [sep]) R) (x # t) [] = (if sep = x then rx_run False R t [] else [])"
    by simp
  then show ?thesis
    using run_two_digits_eos [of False t "[]"] Cons unfolding R_def by auto
qed

lemma test_sep2:
  "fst (regexp_test (regexp_literal src
          (Seq (Lit [sep]) (Seq (Cls cls_digit) (Seq (Cls cls_digit) Eos))) False False) s)
   \<longleftrightarrow> (\<exists>pre d1 d2. s = pre @ [sep, d1, d2] \<and> cls_digit d1 \<and> cls_digit d2)"
proof -
  define r where "r = Seq (Lit [sep]) (Seq (Cls cls_digit) (Seq (Cls cls_digit) Eos))"
  have "fst (regexp_test (regexp_literal src r False False) s) \<longleftrightarrow> rx_find False r 0 s \<noteq> None"
    by (cases "rx_find False r 0 s") (auto simp: regexp_test_def regexp_literal_def)
  also have "\<dots> \<longleftrightarrow> (\<exists>pre suf. s = pre @ suf \<and> rx_run False r suf [] \<noteq> [])"
    by (rule rx_find_None)
  also have "\<dots> \<longleftrightarrow> (\<exists>pre d1 d2. s = pre @ [sep, d1, d2] \<and> cls_digit d1 \<and> cls_digit d2)"
    unfolding r_def run_sep2 by blast
  finally show ?thesis unfolding r_def .
qed

lemma digit_not_sep: "cls_digit d \<Longrightarrow> d \<noteq> 44 \<and> d \<noteq> 46"
  by (auto simp: cls_digit_def)

lemma lastIndexOf_tail:
  "d1 \<noteq> 44 \<Longrightarrow> d2 \<noteq> 44 \<Longrightarrow> lastIndexOf (p @ [44, d1, d2]) 44 = int (length p)"
  by (induction p) (auto simp: Let_def)

lemma replace_commas_tail:
  "d1 \<noteq> 44 \<Longrightarrow> d2 \<noteq> 44 \<Longrightarrow>
   replace_commas (off + int (length p)) off (p @ [44, d1, d2])
     = filter (\<lambda>c. c \<noteq> 44) p @ [46, d1, d2]"
proof (induction p arbitrary: off)
  case Nil
  then show ?case by simp
next
  case (Cons x p)
  show ?case using Cons.IH [of "off + 1"] Cons.prems by (auto simp: add.assoc)
qed

text \<open>
  C8. \<open>normalizeAmount\<close> maps \<open>1,234.56\<close> and \<open>1.234,56\<close> to \<open>1234.56\<close> and \<open>99,00\<close> to
  \<open>99.00\<close>. In general, when the trimmed input ends in a comma and two digits (it then
  does not end in a period and two digits), the periods and the other commas are removed
  and that comma becomes the decimal point; otherwise the commas are removed.
\<close>

theorem C8_normalizeAmount:
  "normalizeAmount (js ''1,234.56'') = js ''1234.56''
   \<and> normalizeAmount (js ''1.234,56'') = js ''1234.56''
   \<and> normalizeAmount (js ''99,00'') = js ''99.00''
   \<and> (js_trim raw = pre @ [44, d1, d2] \<and> cls_digit d1 \<and> cls_digit d2 \<longrightarrow>
        \<not> (\<exists>pre' e1 e2. js_trim raw = pre' @ [46, e1, e2] \<and> cls_digit e1 \<and> cls_digit e2)
        \<and> normalizeAmount raw = filter (\<lambda>c. c \<noteq> 46 \<and> c \<noteq> 44) pre @ [46, d1, d2])
   \<and> (\<not> (\<exists>pre d1 d2. js_trim raw = pre @ [44, d1, d2] \<and> cls_digit d1 \<and> cls_digit d2) \<longrightarrow>
        normalizeAmount raw = filter (\<lambda>c. c \<noteq> 44) (js_trim raw))"
proof (intro conjI impI)
  show "normalizeAmount (js ''1,234.56'') = js ''1234.56''"
    by (simp add: parse_eval rx_eval)
  show "normalizeAmount (js ''1.234,56'') = js ''1234.56''"
    by (simp add: parse_eval rx_eval)
  show "normalizeAmount (js ''99,00'') = js ''99.00''"
    by (simp add: parse_eval rx_eval)
next
  assume a: "js_trim raw = pre @ [44, d1, d2] \<and> cls_digit d1 \<and> cls_digit d2"
  show "\<not> (\<exists>pre' e1 e2. js_trim raw = pre' @ [46, e1, e2] \<and> cls_digit e1 \<and> cls_digit e2)"
  proof
    assume "\<exists>pre' e1 e2. js_trim raw = pre' @ [46, e1, e2] \<and> cls_digit e1 \<and> cls_digit e2"
    then obtain pre' e1 e2 where "js_trim raw = pre' @ [46, e1, e2]" by blast
    with a have "pre @ [44, d1, d2] = pre' @ [46, e1, e2]" by simp
    then show False by simp
  qed
next
  assume a: "js_trim raw = pre @ [44, d1, d2] \<and> cls_digit d1 \<and> cls_digit d2"
  then have d: "d1 \<noteq> 44" "d1 \<noteq> 46" "d2 \<noteq> 44" "d2 \<noteq> 46" using digit_not_sep by auto
  have c: "fst (regexp_test (regexp_literal '',[0-9]{2}$'' rx_comma2 False False) (js_trim raw))"
    unfolding rx_comma2_def js_def using a test_sep2 [of "'',[0-9]{2}$''" 44 "js_trim raw"]
    by auto
  have nd: "\<not> fst (regexp_test (regexp_literal (bsl @ ''.[0-9]{2}$'') rx_dot2 False False)
                   (js_trim raw))"
  proof
    assume "fst (regexp_test (regexp_literal (bsl @ ''.[0-9]{2}$'') rx_dot2 False False)
                   (js_trim raw))"
    then obtain pre' e1 e2 where "js_trim raw = pre' @ [46, e1, e2]"
      unfolding rx_dot2_def js_def
      using test_sep2 [of "bsl @ ''.[0-9]{2}$''" 46 "js_trim raw"] by auto
    with a have "pre @ [44, d1, d2] = pre' @ [46, e1, e2]" by simp
    then show False by simp
  qed
  have f: "filter (\<lambda>c. c \<noteq> 46) (js_trim raw) = filter (\<lambda>c. c \<noteq> 46) pre @ [44, d1, d2]"
    using a d by simp
  have "normalizeAmount raw
        = replace_commas (lastIndexOf (filter (\<lambda>c. c \<noteq> 46) pre @ [44, d1, d2]) 44) 0
            (filter (\<lambda>c. c \<noteq> 46) pre @ [44, d1, d2])"
    using c nd f by (simp add: normalizeAmount_def Let_def)
  also have "\<dots> = filter (\<lambda>c. c \<noteq> 44) (filter (\<lambda>c. c \<noteq> 46) pre) @ [46, d1, d2]"
    using d replace_commas_tail [of d1 d2 0 "filter (\<lambda>c. c \<noteq> 46) pre"]
    by (simp add: lastIndexOf_tail)
  finally show "normalizeAmount raw = filter (\<lambda>c. c \<noteq> 46 \<and> c \<noteq> 44) pre @ [46, d1, d2]"
    by (simp add: conj_commute)
next
  assume n: "\<not> (\<exists>pre d1 d2. js_trim raw = pre @ [44, d1, d2] \<and> cls_digit d1 \<and> cls_digit d2)"
  have "\<not> fst (regexp_test (regexp_literal '',[0-9]{2}$'' rx_comma2 False False) (js_trim raw))"
    unfolding rx_comma2_def js_def using n test_sep2 [of "'',[0-9]{2}$''" 44 "js_trim raw"]
    by auto
  then show "normalizeAmount raw = filter (\<lambda>c. c \<noteq> 44) (js_trim raw)"
    by (simp add: normalizeAmount_def Let_def)
qed

theorem C8_normalizeAmount_witness:
  "normalizeAmount (js '' 1.234.567,89'') = js ''1234567.89''"
proof -
  have t1: "js_trim (js '' 1.234.567,89'') = js ''1.234.567'' @ [44, 56, 57]
            \<and> cls_digit 56 \<and> cls_digit 57"
    by (simp add: js_trim_def js_def cls_space_def cls_digit_def)
  have "normalizeAmount (js '' 1.234.567,89'')
        = filter (\<lambda>c. c \<noteq> 46 \<and> c \<noteq> 44) (js ''1.234.567'') @ [46, 56, 57]"
    using C8_normalizeAmount [where raw = "js '' 1.234.567,89''" and pre = "js ''1.234.567''" and ?d1.0 = 56
        and ?d2.0 = 57] t1 by blast
  then show ?thesis by (simp add: js_def)
qed










end
